theory Spec2Isabelle
  imports Main "HOL-Library.Sublist"
begin

section \<open>Text: a Python \<open>str\<close> as a list of code points\<close>

text \<open>
  \<^verbatim>\<open>extract_outline.py\<close> works on Python 3 strings: sequences of Unicode code points.
  \<open>len\<close> counts code points and the label words of the caption rule are CJK
  characters, so a character is a natural number (its code point), not a byte.
\<close>

type_synonym uchar = nat
type_synonym ustring = "uchar list"

definition ascii :: "string \<Rightarrow> ustring" where
  "ascii s = map of_char s"

text \<open>
  \<open>str.strip()\<close> and the regex class \<^verbatim>\<open>\s\<close> use the same test (\<open>str.isspace\<close>):
  the ASCII controls 9..13 and 28..31, the space, and the Unicode separators.
\<close>

definition is_space :: "uchar \<Rightarrow> bool" where
  "is_space c \<longleftrightarrow>
     (9 \<le> c \<and> c \<le> 13) \<or> (28 \<le> c \<and> c \<le> 32) \<or> c = 133 \<or> c = 160 \<or> c = 5760 \<or>
     (8192 \<le> c \<and> c \<le> 8202) \<or> c = 8232 \<or> c = 8233 \<or> c = 8239 \<or> c = 8287 \<or> c = 12288"

text \<open>
  The regex class \<^verbatim>\<open>\d\<close> on a \<open>str\<close> pattern is \<open>str.isdecimal\<close>: every character of
  the Unicode category Nd, not only \<open>0\<close>..\<open>9\<close>. The ranges are those of Unicode 14.0
  (CPython 3.11), first and last code point of each block of digits.
\<close>

definition nd_ranges :: "(nat \<times> nat) list" where
  "nd_ranges =
    [(48, 57), (1632, 1641), (1776, 1785), (1984, 1993), (2406, 2415), (2534, 2543),
     (2662, 2671), (2790, 2799), (2918, 2927), (3046, 3055), (3174, 3183), (3302, 3311),
     (3430, 3439), (3558, 3567), (3664, 3673), (3792, 3801), (3872, 3881), (4160, 4169),
     (4240, 4249), (6112, 6121), (6160, 6169), (6470, 6479), (6608, 6617), (6784, 6793),
     (6800, 6809), (6992, 7001), (7088, 7097), (7232, 7241), (7248, 7257), (42528, 42537),
     (43216, 43225), (43264, 43273), (43472, 43481), (43504, 43513), (43600, 43609),
     (44016, 44025), (65296, 65305), (66720, 66729), (68912, 68921), (69734, 69743),
     (69872, 69881), (69942, 69951), (70096, 70105), (70384, 70393), (70736, 70745),
     (70864, 70873), (71248, 71257), (71360, 71369), (71472, 71481), (71904, 71913),
     (72016, 72025), (72784, 72793), (73040, 73049), (73120, 73129), (92768, 92777),
     (92864, 92873), (93008, 93017), (120782, 120831), (123200, 123209), (123632, 123641),
     (125264, 125273), (130032, 130041)]"

definition is_digit :: "uchar \<Rightarrow> bool" where
  "is_digit c \<longleftrightarrow> list_ex (\<lambda>(lo, hi). lo \<le> c \<and> c \<le> hi) nd_ranges"

definition strip :: "ustring \<Rightarrow> ustring" where
  "strip s = rev (dropWhile is_space (rev (dropWhile is_space s)))"

section \<open>Regular expressions with the search order of Python's \<open>re\<close>\<close>

text \<open>
  The three patterns of the source are values of \<open>rx\<close>. \<open>rmatch\<close> is a backtracking
  matcher written as a list of successes: every way the pattern can match at the
  current position, in the order in which \<open>re\<close> tries them (a greedy repetition tries
  one more round before stopping, a lazy one stops before trying one more round, an
  alternation goes left to right). \<open>re.match\<close> takes the first success.
  A match state is the position, the text that remains and the groups captured.
\<close>

datatype rx =
    Cls "uchar \<Rightarrow> bool"
  | Eps
  | Seq rx rx
  | Alt rx rx
  | Star rx
  | LazyStar rx
  | Grp nat rx
  | Bol
  | Eol

type_synonym mstate = "nat \<times> ustring \<times> (nat \<times> ustring) list"

definition remaining :: "mstate \<Rightarrow> nat" where
  "remaining st = length (fst (snd st))"

function rmatch :: "rx \<Rightarrow> mstate \<Rightarrow> mstate list" where
  "rmatch (Cls P) st =
     (case st of (i, s, g) \<Rightarrow>
        (case s of [] \<Rightarrow> [] | c # cs \<Rightarrow> if P c then [(Suc i, cs, g)] else []))"
| "rmatch Eps st = [st]"
| "rmatch (Seq a b) st = concat (map (rmatch b) (rmatch a st))"
| "rmatch (Alt a b) st = rmatch a st @ rmatch b st"
| "rmatch (Star r) st =
     concat (map (\<lambda>st'. if remaining st' < remaining st then rmatch (Star r) st' else [])
                 (rmatch r st)) @ [st]"
| "rmatch (LazyStar r) st =
     st # concat (map (\<lambda>st'. if remaining st' < remaining st then rmatch (LazyStar r) st' else [])
                      (rmatch r st))"
| "rmatch (Grp k r) st =
     (case st of (i, s, g) \<Rightarrow>
        map (\<lambda>(j, s', g'). (j, s', (k, take (j - i) s) # g')) (rmatch r (i, s, g)))"
| "rmatch Bol st = (case st of (i, s, g) \<Rightarrow> if i = 0 then [st] else [])"
| "rmatch Eol st = (case st of (i, s, g) \<Rightarrow> if s = [] \<or> s = [10] then [st] else [])"
  by pat_completeness auto
termination
  by (relation "measures [\<lambda>(r, st). size r, \<lambda>(r, st). remaining st]") auto

definition Plus :: "rx \<Rightarrow> rx" where
  "Plus r = Seq r (Star r)"

definition LazyPlus :: "rx \<Rightarrow> rx" where
  "LazyPlus r = Seq r (LazyStar r)"

definition Opt :: "rx \<Rightarrow> rx" where
  "Opt r = Alt r Eps"

fun Lit :: "ustring \<Rightarrow> rx" where
  "Lit [] = Eps"
| "Lit (c # cs) = Seq (Cls (\<lambda>x. x = c)) (Lit cs)"

definition re_match :: "rx \<Rightarrow> ustring \<Rightarrow> (nat \<times> ustring) list option" where
  "re_match r s = (case rmatch r (0, s, []) of [] \<Rightarrow> None | (j, s', g) # _ \<Rightarrow> Some g)"

definition any_char :: "uchar \<Rightarrow> bool" where
  "any_char c \<longleftrightarrow> c \<noteq> 10"

text \<open>\<^verbatim>\<open>^(\d+(?:\.\d+)*)\s+(.+?)(?:\s+\d+)?$\<close>\<close>

definition heading_pattern :: rx where
  "heading_pattern =
     Seq Bol
    (Seq (Grp 1 (Seq (Plus (Cls is_digit)) (Star (Seq (Cls (\<lambda>c. c = 46)) (Plus (Cls is_digit))))))
    (Seq (Plus (Cls is_space))
    (Seq (Grp 2 (LazyPlus (Cls any_char)))
    (Seq (Opt (Seq (Plus (Cls is_space)) (Plus (Cls is_digit))))
     Eol))))"

text \<open>\<^verbatim>\<open>^[\d\s\.\-\,\(\)\[\]]+$\<close>\<close>

definition numeric_pattern :: rx where
  "numeric_pattern =
     Seq Bol
    (Seq (Plus (Cls (\<lambda>c. is_digit c \<or> is_space c \<or> c \<in> set (ascii ''.-,()[]''))))
     Eol)"

text \<open>\<^verbatim>\<open>^(\<open>label\<close>)\s*[\d\.]+\<close> with the labels U+56FE, U+8868, \<open>Fig\<close> and \<open>Table\<close>\<close>

definition caption_pattern :: rx where
  "caption_pattern =
     Seq Bol
    (Seq (Grp 1 (Alt (Lit [22270]) (Alt (Lit [34920]) (Alt (Lit (ascii ''Fig'')) (Lit (ascii ''Table''))))))
    (Seq (Star (Cls is_space))
         (Plus (Cls (\<lambda>c. is_digit c \<or> c = 46)))))"

section \<open>The parsed document\<close>

text \<open>
  A BeautifulSoup tree: strings that \<open>get_text\<close> returns (\<open>Text\<close>), strings it skips
  (\<open>Other\<close>: comments, doctype), and tags with their children in document order.
  The source keeps the elements that \<open>find_all\<close> returned in a list and calls
  \<open>decompose\<close> on them while the tree changes, so the handles must stay meaningful
  after a removal: an element is addressed by its path of child indices from the
  root, and \<open>decompose\<close> leaves \<open>Detached\<close> where the subtree was, so that no
  sibling changes its index. \<open>Detached\<close> has no text and no descendants, and a handle
  whose path runs into it belongs to a wiped element: \<open>decompose\<close> has emptied its
  \<open>contents\<close> and cut it from its parent, so its \<open>get_text()\<close> is the empty string and
  a further \<open>decompose()\<close> on it changes nothing.
\<close>

datatype node = Text ustring | Other ustring | Elem string "node list" | Detached

type_synonym path = "nat list"

definition is_tag :: "string list \<Rightarrow> node \<Rightarrow> bool" where
  "is_tag names n = (case n of Elem t kids \<Rightarrow> t \<in> set names | _ \<Rightarrow> False)"

text \<open>\<open>find_all\<close>: the descendants with one of the given names, in document order.\<close>

fun find_all :: "string list \<Rightarrow> node \<Rightarrow> path list"
  and find_kids :: "string list \<Rightarrow> nat \<Rightarrow> node list \<Rightarrow> path list" where
  "find_all names (Elem t kids) = find_kids names 0 kids"
| "find_all names (Text s) = []"
| "find_all names (Other s) = []"
| "find_all names Detached = []"
| "find_kids names i [] = []"
| "find_kids names i (k # ks) =
     (if is_tag names k then [[i]] else []) @ map ((#) i) (find_all names k)
       @ find_kids names (Suc i) ks"

fun get_text :: "node \<Rightarrow> ustring" where
  "get_text (Text s) = s"
| "get_text (Other s) = []"
| "get_text (Elem t kids) = concat (map get_text kids)"
| "get_text Detached = []"

fun lookup :: "node \<Rightarrow> path \<Rightarrow> node option" where
  "lookup n [] = (case n of Detached \<Rightarrow> None | _ \<Rightarrow> Some n)"
| "lookup n (i # p) =
     (case n of Elem t kids \<Rightarrow> if i < length kids then lookup (kids ! i) p else None
      | _ \<Rightarrow> None)"

definition text_at :: "node \<Rightarrow> path \<Rightarrow> ustring" where
  "text_at soup p = (case lookup soup p of None \<Rightarrow> [] | Some n \<Rightarrow> get_text n)"

fun decompose :: "node \<Rightarrow> path \<Rightarrow> node" where
  "decompose n [] = Detached"
| "decompose n (i # p) =
     (case n of Elem t kids \<Rightarrow>
        if i < length kids then Elem t (kids[i := decompose (kids ! i) p]) else n
      | _ \<Rightarrow> n)"

section \<open>\<open>clean_html_for_outline\<close>\<close>

record clean_stats =
  tables_removed :: nat
  images_removed :: nat
  scripts_removed :: nat
  captions_removed :: nat
  long_paragraphs_removed :: nat

text \<open>One round of the loop over \<open>soup.find_all(['p', 'div'])\<close> (lines 51 to 63).\<close>

definition caption_step :: "node \<times> clean_stats \<Rightarrow> path \<Rightarrow> node \<times> clean_stats" where
  "caption_step acc p =
     (case acc of (soup, stats) \<Rightarrow>
        let text = strip (text_at soup p) in
        if re_match caption_pattern text \<noteq> None then
          (decompose soup p, stats\<lparr>captions_removed := captions_removed stats + 1\<rparr>)
        else if length text > 200 then
          (decompose soup p, stats\<lparr>long_paragraphs_removed := long_paragraphs_removed stats + 1\<rparr>)
        else (soup, stats))"

text \<open>Rules 1 to 4 (lines 28 to 48): the tree once tables, images, scripts and the
  non-content tags are gone, with the three counts taken on the way.\<close>

definition strip_layout :: "node \<Rightarrow> node \<times> clean_stats" where
  "strip_layout soup0 =
     (let tables = find_all [''table''] soup0;
          soup1 = foldl decompose soup0 tables;
          images = find_all [''img''] soup1;
          soup2 = foldl decompose soup1 images;
          scripts = find_all [''script'', ''style''] soup2;
          soup3 = foldl decompose soup2 scripts;
          soup4 = foldl decompose soup3
                    (find_all [''head'', ''meta'', ''link'', ''svg'', ''canvas''] soup3)
      in (soup4, \<lparr>tables_removed = length tables, images_removed = length images,
                  scripts_removed = length scripts, captions_removed = 0,
                  long_paragraphs_removed = 0\<rparr>))"

definition clean_html_for_outline :: "node \<Rightarrow> node \<times> clean_stats" where
  "clean_html_for_outline soup0 =
     (case strip_layout soup0 of (soup4, stats) \<Rightarrow>
        foldl caption_step (soup4, stats) (find_all [''p'', ''div''] soup4))"

section \<open>The outline loop of \<open>extract_outline\<close>\<close>

record entry =
  number :: ustring
  title :: ustring
  level :: int
  full_text :: ustring

definition group :: "(nat \<times> ustring) list \<Rightarrow> nat \<Rightarrow> ustring" where
  "group m k = (case map_of m k of Some v \<Rightarrow> v | None \<Rightarrow> [])"

text \<open>
  One round of the loop over the paragraphs (lines 106 to 146); the argument is
  \<open>p.get_text()\<close>. Groups 1 and 2 lie on every path through \<open>heading_pattern\<close>, so
  \<open>group\<close> never takes its \<open>None\<close> branch here.
\<close>

definition outline_step :: "int \<Rightarrow> entry list \<times> ustring set \<Rightarrow> ustring \<Rightarrow> entry list \<times> ustring set" where
  "outline_step max_level acc raw =
     (case acc of (outline, processed_numbers) \<Rightarrow>
        let text = strip raw in
        if text = [] then acc
        else if re_match numeric_pattern text \<noteq> None then acc
        else (case re_match heading_pattern text of
                None \<Rightarrow> acc
              | Some m \<Rightarrow>
                  let number = group m 1; title = strip (group m 2) in
                  if title = [] \<or> length title < 2 then acc
                  else if number \<in> processed_numbers then acc
                  else let level = int (count_list number 46) + 1 in
                    if level \<le> max_level then
                      (outline @ [\<lparr>number = number, title = title, level = level, full_text = text\<rparr>],
                       insert number processed_numbers)
                    else acc))"

definition block_tags :: "string list" where
  "block_tags = [''p'', ''div'', ''h1'', ''h2'', ''h3'', ''h4'', ''h5'', ''h6'']"

text \<open>Lines 86 to 146: from the parsed document to the outline.\<close>

definition outline_loop :: "int \<Rightarrow> ustring list \<Rightarrow> entry list" where
  "outline_loop max_level texts = fst (foldl (outline_step max_level) ([], {}) texts)"

definition outline_of :: "node \<Rightarrow> int \<Rightarrow> entry list" where
  "outline_of soup0 max_level =
     (case clean_html_for_outline soup0 of (soup, clean_stats) \<Rightarrow>
        let paragraphs = find_all block_tags soup in
        outline_loop max_level (map (text_at soup) paragraphs))"

section \<open>The formatters\<close>

fun join :: "ustring \<Rightarrow> ustring list \<Rightarrow> ustring" where
  "join sep [] = []"
| "join sep [x] = x"
| "join sep (x # y # ys) = x @ sep @ join sep (y # ys)"

definition generate_text_outline :: "entry list \<Rightarrow> ustring" where
  "generate_text_outline outline =
     join [10] (map (\<lambda>item. concat (replicate (nat (level item - 1)) (ascii ''  ''))
                              @ number item @ ascii '' '' @ title item) outline)"

definition generate_markdown_outline :: "entry list \<Rightarrow> ustring" where
  "generate_markdown_outline outline =
     join [10] ([ascii ''# '' @ [25991, 26723, 22823, 32434], []]
                @ concat (map (\<lambda>item. [replicate (nat (level item + 1)) 35
                                          @ ascii '' '' @ number item @ ascii '' '' @ title item,
                                        []]) outline))"

text \<open>\<open>str(n)\<close> for an integer.\<close>

fun str_nat :: "nat \<Rightarrow> ustring" where
  "str_nat n = (if n < 10 then [48 + n] else str_nat (n div 10) @ [48 + n mod 10])"

definition str_int :: "int \<Rightarrow> ustring" where
  "str_int k = (if k < 0 then 45 # str_nat (nat (- k)) else str_nat (nat k))"

text \<open>
  \<open>json.dumps(outline, ensure_ascii=False, indent=2)\<close>: a quote, a backslash and the
  characters below U+0020 are escaped, everything else is written as it is.
\<close>

definition hex_digit :: "nat \<Rightarrow> uchar" where
  "hex_digit d = (if d < 10 then 48 + d else 87 + d)"

definition json_escape :: "uchar \<Rightarrow> ustring" where
  "json_escape c =
     (if c = 34 then [92, 34] else if c = 92 then [92, 92]
      else if c = 10 then 92 # ascii ''n'' else if c = 13 then 92 # ascii ''r''
      else if c = 9 then 92 # ascii ''t'' else if c = 8 then 92 # ascii ''b''
      else if c = 12 then 92 # ascii ''f''
      else if c < 32 then 92 # ascii ''u00'' @ [hex_digit (c div 16), hex_digit (c mod 16)]
      else [c])"

definition json_string :: "ustring \<Rightarrow> ustring" where
  "json_string s = [34] @ concat (map json_escape s) @ [34]"

definition json_field :: "string \<Rightarrow> ustring \<Rightarrow> ustring" where
  "json_field key v = ascii ''    '' @ [34] @ ascii key @ [34] @ ascii '': '' @ v"

definition json_entry :: "entry \<Rightarrow> ustring" where
  "json_entry item =
     ascii ''{'' @ [10]
     @ json_field ''number'' (json_string (number item)) @ ascii '','' @ [10]
     @ json_field ''title'' (json_string (title item)) @ ascii '','' @ [10]
     @ json_field ''level'' (str_int (level item)) @ ascii '','' @ [10]
     @ json_field ''full_text'' (json_string (full_text item)) @ [10]
     @ ascii ''  }''"

definition json_dumps :: "entry list \<Rightarrow> ustring" where
  "json_dumps outline =
     (if outline = [] then ascii ''[]''
      else ascii ''['' @ [10]
           @ join (ascii '','' @ [10]) (map (\<lambda>item. ascii ''  '' @ json_entry item) outline)
           @ [10] @ ascii '']'')"

section \<open>Files, the console and \<open>extract_outline\<close>\<close>

text \<open>
  What the program reads and writes: the text files by name (their decoded content) and
  the console, one element for each call of \<open>print\<close>. Opening a missing file for reading
  raises; that is the only error modelled (a file opened for writing is created).
\<close>

record world =
  files :: "ustring \<rightharpoonup> ustring"
  console :: "ustring list"

datatype error = FileNotFoundError ustring

definition print :: "ustring \<Rightarrow> world \<Rightarrow> world" where
  "print s w = w\<lparr>console := console w @ [s]\<rparr>"

definition print_stats :: "clean_stats \<Rightarrow> world \<Rightarrow> world" where
  "print_stats st w =
     (let ge = [32, 20010];
          w = print (ascii ''HTML '' @ [28165, 29702, 23436, 25104, 65306]) w;
          w = print (ascii ''  - '' @ [31227, 38500, 34920, 26684] @ ascii '': ''
                     @ str_nat (tables_removed st) @ ge) w;
          w = print (ascii ''  - '' @ [31227, 38500, 22270, 29255] @ ascii '': ''
                     @ str_nat (images_removed st) @ ge) w;
          w = print (ascii ''  - '' @ [31227, 38500, 33050, 26412, 47, 26679, 24335] @ ascii '': ''
                     @ str_nat (scripts_removed st) @ ge) w;
          w = print (ascii ''  - '' @ [31227, 38500, 22270, 34920, 26631, 27880] @ ascii '': ''
                     @ str_nat (captions_removed st) @ ge) w;
          w = print (ascii ''  - '' @ [31227, 38500, 38271, 25991, 26412, 27573, 33853] @ ascii '': ''
                     @ str_nat (long_paragraphs_removed st) @ ge) w
      in print [] w)"

definition render :: "ustring \<Rightarrow> entry list \<Rightarrow> ustring" where
  "render format outline =
     (if format = ascii ''json'' then json_dumps outline
      else if format = ascii ''markdown'' then generate_markdown_outline outline
      else generate_text_outline outline)"

text \<open>
  \<open>extract_outline(html_file, output_file, format, max_level)\<close>. The HTML parser
  (\<open>BeautifulSoup(content, 'html.parser')\<close>) is a library and is a parameter here.
  An \<open>output_file\<close> that is \<open>None\<close> or the empty string sends the text to the console.
\<close>

definition extract_outline ::
  "(ustring \<Rightarrow> node) \<Rightarrow> world \<Rightarrow> ustring \<Rightarrow> ustring option \<Rightarrow> ustring \<Rightarrow> int
     \<Rightarrow> error + (world \<times> entry list)" where
  "extract_outline parse w html_file output_file format max_level =
     (case files w html_file of
        None \<Rightarrow> Inl (FileNotFoundError html_file)
      | Some content \<Rightarrow>
          (case clean_html_for_outline (parse content) of (soup, clean_stats) \<Rightarrow>
             let w = print_stats clean_stats w;
                 paragraphs = find_all block_tags soup;
                 outline = outline_loop max_level (map (text_at soup) paragraphs);
                 output_text = render format outline;
                 w = (case output_file of
                        None \<Rightarrow> print output_text w
                      | Some f \<Rightarrow>
                          if f = [] then print output_text w
                          else print ([22823, 32434, 24050, 20445, 23384, 21040] @ ascii '': '' @ f)
                                 (w\<lparr>files := (files w)(f \<mapsto> output_text)\<rparr>))
             in Inr (w, outline)))"

text \<open>The script body (lines 208 to 235), after \<open>argparse\<close> has validated the arguments.\<close>

record args =
  arg_input_file :: ustring
  arg_max_level :: int
  arg_format :: ustring
  arg_output :: "ustring option"

definition outline_txt :: ustring where
  "outline_txt = [38468, 20214] @ ascii ''1_outline.txt''"

definition outline_md :: ustring where
  "outline_md = [38468, 20214] @ ascii ''1_outline.md''"

definition outline_json :: ustring where
  "outline_json = [38468, 20214] @ ascii ''1_outline.json''"

definition print_summary :: "entry list \<Rightarrow> int \<Rightarrow> world \<Rightarrow> world" where
  "print_summary outline maxl w =
     (let w = print ([10, 20849, 25552, 21462, 21040, 32] @ str_nat (length outline)
                     @ [32, 20010, 31456, 33410, 26631, 39064, 65288, 23618, 32423]
                     @ ascii '' 1-'' @ str_int maxl @ [65289]) w;
          w = print ([10, 29983, 25104, 30340, 25991, 20214, 65306]) w;
          w = print (ascii ''  - '' @ outline_txt @ ascii '' ('' @ [32431, 25991, 26412, 26684, 24335]
                     @ ascii '')'') w;
          w = print (ascii ''  - '' @ outline_md @ ascii '' (Markdown '' @ [26684, 24335]
                     @ ascii '')'') w;
          w = print (ascii ''  - '' @ outline_json @ ascii '' (JSON '' @ [26684, 24335]
                     @ ascii '')'') w;
          w = print ([10, 20351, 29992, 31034, 20363, 65306]) w;
          w = print (ascii ''  python extract_outline.py                     # ''
                     @ [40664, 35748, 25552, 21462] @ ascii '' 1-2 '' @ [32423, 26631, 39064]) w;
          w = print (ascii ''  python extract_outline.py --max-level 3       # ''
                     @ [25552, 21462] @ ascii '' 1-3 '' @ [32423, 26631, 39064]) w
      in print (ascii ''  python extract_outline.py --max-level 1       # ''
                @ [21482, 25552, 21462] @ ascii '' 1 '' @ [32423, 26631, 39064]) w)"

definition main :: "(ustring \<Rightarrow> node) \<Rightarrow> world \<Rightarrow> args \<Rightarrow> error + world" where
  "main parse w a =
     (let w = print ([27491, 22312, 25552, 21462, 25991, 26723, 22823, 32434, 65288, 26368,
                      22823, 23618, 32423] @ ascii '': '' @ str_int (arg_max_level a)
                     @ [65289] @ ascii ''...'' @ [10]) w
      in case extract_outline parse w (arg_input_file a) None (ascii ''txt'') (arg_max_level a) of
           Inl e \<Rightarrow> Inl e
         | Inr (w, outline) \<Rightarrow>
       (case extract_outline parse w (arg_input_file a) (Some outline_txt) (ascii ''txt'') (arg_max_level a) of
           Inl e \<Rightarrow> Inl e
         | Inr (w, o2) \<Rightarrow>
       (case extract_outline parse w (arg_input_file a) (Some outline_md) (ascii ''markdown'') (arg_max_level a) of
           Inl e \<Rightarrow> Inl e
         | Inr (w, o3) \<Rightarrow>
       (case extract_outline parse w (arg_input_file a) (Some outline_json) (ascii ''json'') (arg_max_level a) of
           Inl e \<Rightarrow> Inl e
         | Inr (w, o4) \<Rightarrow> Inr (print_summary outline (arg_max_level a) w)))))"

section \<open>Matcher and accumulator, the two halves of the loop\<close>

text \<open>
  The source has one loop. The part of a round that does not depend on the loop's
  state (lines 107 to 129 and 136) decides whether a block is a heading candidate and
  with which fields; the rest of the round (lines 132 to 146) decides whether the
  candidate enters the outline.
\<close>

definition heading_candidate :: "ustring \<Rightarrow> entry option" where
  "heading_candidate raw =
     (let text = strip raw in
      if text = [] then None
      else if re_match numeric_pattern text \<noteq> None then None
      else (case re_match heading_pattern text of
              None \<Rightarrow> None
            | Some m \<Rightarrow>
                let number = group m 1; title = strip (group m 2) in
                if title = [] \<or> length title < 2 then None
                else Some \<lparr>number = number, title = title,
                            level = int (count_list number 46) + 1, full_text = text\<rparr>))"

definition candidates :: "ustring list \<Rightarrow> entry list" where
  "candidates texts = List.map_filter heading_candidate texts"

text \<open>
  The accumulator as the specification words it: a candidate deeper than
  \<open>max_level\<close> is discarded; otherwise one whose numeral path has been seen is
  discarded; otherwise its path joins the seen set and the candidate is appended.
\<close>

fun accumulate_from :: "ustring set \<Rightarrow> entry list \<Rightarrow> int \<Rightarrow> entry list" where
  "accumulate_from seen [] max_level = []"
| "accumulate_from seen (c # cs) max_level =
     (if level c > max_level then accumulate_from seen cs max_level
      else if number c \<in> seen then accumulate_from seen cs max_level
      else c # accumulate_from (insert (number c) seen) cs max_level)"

definition accumulate :: "entry list \<Rightarrow> int \<Rightarrow> entry list" where
  "accumulate cands max_level = accumulate_from {} cands max_level"

section \<open>The caption rule in the words of the specification\<close>

text \<open>
  A caption begins with one of the label words (U+56FE, U+8868, \<open>Fig\<close>, \<open>Table\<close>)
  followed by a dotted numeral. A dotted numeral begins with a digit, and a single digit
  is one, so the text is a label word and then a digit.
\<close>

definition label_words :: "ustring list" where
  "label_words = [[22270], [34920], ascii ''Fig'', ascii ''Table'']"

definition caption_label :: "ustring \<Rightarrow> bool" where
  "caption_label text \<longleftrightarrow>
     list_ex (\<lambda>lab. take (length lab) text = lab
                    \<and> (case drop (length lab) text of [] \<Rightarrow> False | c # cs \<Rightarrow> is_digit c))
             label_words"

section \<open>Evaluation\<close>

lemma is_digit_low: "c < 1632 \<Longrightarrow> is_digit c = (48 \<le> c \<and> c \<le> 57)"
  by (auto simp: is_digit_def nd_ranges_def)

lemmas rx_eval = re_match_def heading_pattern_def numeric_pattern_def caption_pattern_def
  Plus_def LazyPlus_def Opt_def ascii_def is_digit_low is_space_def any_char_def remaining_def
  strip_def group_def Let_def

lemmas soup_eval = outline_of_def outline_loop_def clean_html_for_outline_def strip_layout_def
  caption_step_def outline_step_def block_tags_def text_at_def is_tag_def

section \<open>The loop is the matcher followed by the accumulator\<close>

lemma outline_step_candidate:
  "outline_step m (out, seen) raw =
     (case heading_candidate raw of
        None \<Rightarrow> (out, seen)
      | Some c \<Rightarrow> if number c \<in> seen then (out, seen)
                  else if level c \<le> m then (out @ [c], insert (number c) seen)
                  else (out, seen))"
proof (cases "strip raw = [] \<or> re_match numeric_pattern (strip raw) \<noteq> None")
  case True
  then show ?thesis
    by (auto simp: outline_step_def heading_candidate_def Let_def)
next
  case False
  show ?thesis
  proof (cases "re_match heading_pattern (strip raw)")
    case None
    with False show ?thesis
      by (simp add: outline_step_def heading_candidate_def Let_def)
  next
    case (Some mm)
    with False show ?thesis
      by (simp add: outline_step_def heading_candidate_def Let_def)
  qed
qed

lemma candidate_level:
  "heading_candidate raw = Some c \<Longrightarrow> level c = int (count_list (number c) 46) + 1"
  by (auto simp: heading_candidate_def Let_def split: option.splits if_splits)

lemma candidates_Cons:
  "candidates (raw # raws) =
     (case heading_candidate raw of None \<Rightarrow> candidates raws | Some c \<Rightarrow> c # candidates raws)"
  by (simp add: candidates_def split: option.splits)

lemma candidates_Nil: "candidates [] = []"
  by (simp add: candidates_def)

lemma candidates_level:
  "c \<in> set (candidates raws) \<Longrightarrow> level c = int (count_list (number c) 46) + 1"
  by (auto simp: candidates_def map_filter_def dest: candidate_level)

lemma foldl_outline_step:
  "foldl (outline_step m) (out, seen) raws =
     (out @ accumulate_from seen (candidates raws) m,
      seen \<union> number ` set (accumulate_from seen (candidates raws) m))"
proof (induction raws arbitrary: out seen)
  case Nil
  show ?case by (simp add: candidates_Nil)
next
  case (Cons raw raws)
  show ?case
  proof (cases "heading_candidate raw")
    case None
    then show ?thesis by (simp add: outline_step_candidate candidates_Cons Cons.IH)
  next
    case (Some c)
    then show ?thesis by (simp add: outline_step_candidate candidates_Cons Cons.IH)
  qed
qed

lemma outline_loop_accumulate: "outline_loop m raws = accumulate (candidates raws) m"
  by (simp add: outline_loop_def accumulate_def foldl_outline_step)

lemma accumulate_from_subseq: "subseq (accumulate_from seen cs m) cs"
  by (induction cs arbitrary: seen) auto

lemma accumulate_from_bounds:
  "e \<in> set (accumulate_from seen cs m) \<Longrightarrow> level e \<le> m \<and> number e \<notin> seen \<and> e \<in> set cs"
  by (induction cs arbitrary: seen) (auto split: if_splits)

lemma accumulate_from_distinct: "distinct (map number (accumulate_from seen cs m))"
  by (induction cs arbitrary: seen) (auto dest: accumulate_from_bounds)

lemma accumulate_from_keeps:
  assumes "c \<in> set cs" "level c \<le> m" "number c \<notin> seen"
    and "\<And>d. d \<in> set cs \<Longrightarrow> number d = number c \<Longrightarrow> level d = level c"
  shows "number c \<in> number ` set (accumulate_from seen cs m)"
  using assms
proof (induction cs arbitrary: seen)
  case Nil
  from Nil.prems(1) show ?case by simp
next
  case (Cons a cs)
  show ?case
  proof (cases "number a = number c")
    case True
    have "a \<in> set (a # cs)" by simp
    then have "level a = level c" using True by (rule Cons.prems(4))
    then have "level a \<le> m" using Cons.prems(2) by simp
    moreover have "number a \<notin> seen" using True Cons.prems(3) by simp
    ultimately have "accumulate_from seen (a # cs) m = a # accumulate_from (insert (number a) seen) cs m"
      by simp
    then show ?thesis using True by simp
  next
    case False
    then have mem: "c \<in> set cs" using Cons.prems(1) by auto
    have lv: "\<And>d. d \<in> set cs \<Longrightarrow> number d = number c \<Longrightarrow> level d = level c"
    proof -
      fix d assume "d \<in> set cs" "number d = number c"
      then have "d \<in> set (a # cs)" by simp
      then show "level d = level c" using \<open>number d = number c\<close> by (rule Cons.prems(4))
    qed
    have a: "number c \<in> number ` set (accumulate_from seen cs m)"
      by (rule Cons.IH[OF mem Cons.prems(2) Cons.prems(3) lv])
    have "number c \<notin> insert (number a) seen" using False Cons.prems(3) by auto
    then have b: "number c \<in> number ` set (accumulate_from (insert (number a) seen) cs m)"
      by (rule Cons.IH[OF mem Cons.prems(2) _ lv])
    show ?thesis
    proof (cases "level a > m \<or> number a \<in> seen")
      case True
      then have "accumulate_from seen (a # cs) m = accumulate_from seen cs m" by auto
      with a show ?thesis by simp
    next
      case False
      then have "accumulate_from seen (a # cs) m = a # accumulate_from (insert (number a) seen) cs m"
        by auto
      with b show ?thesis by simp
    qed
  qed
qed

lemma accumulate_from_first:
  assumes "e \<in> set (accumulate_from seen cs m)"
    and "\<And>d. d \<in> set cs \<Longrightarrow> number d = number e \<Longrightarrow> level d = level e"
  shows "find (\<lambda>c. number c = number e) cs = Some e"
  using assms
proof (induction cs arbitrary: seen)
  case Nil
  from Nil.prems(1) show ?case by simp
next
  case (Cons a cs)
  have lv: "\<And>d. d \<in> set cs \<Longrightarrow> number d = number e \<Longrightarrow> level d = level e"
  proof -
    fix d assume "d \<in> set cs" "number d = number e"
    then have "d \<in> set (a # cs)" by simp
    then show "level d = level e" using \<open>number d = number e\<close> by (rule Cons.prems(2))
  qed
  have bnd: "level e \<le> m \<and> number e \<notin> seen"
    using accumulate_from_bounds[OF Cons.prems(1)] by simp
  show ?case
  proof (cases "number a = number e")
    case True
    have "a \<in> set (a # cs)" by simp
    then have "level a = level e" using True by (rule Cons.prems(2))
    with bnd True have "accumulate_from seen (a # cs) m = a # accumulate_from (insert (number a) seen) cs m"
      by simp
    with Cons.prems(1) have "e = a \<or> e \<in> set (accumulate_from (insert (number a) seen) cs m)"
      by simp
    moreover have "e \<notin> set (accumulate_from (insert (number a) seen) cs m)"
    proof
      assume "e \<in> set (accumulate_from (insert (number a) seen) cs m)"
      from accumulate_from_bounds[OF this] True show False by simp
    qed
    ultimately have "e = a" by simp
    then show ?thesis by simp
  next
    case False
    from Cons.prems(1) False
    have "e \<in> set (accumulate_from (insert (number a) seen) cs m) \<or> e \<in> set (accumulate_from seen cs m)"
      by (auto split: if_splits)
    then have "find (\<lambda>c. number c = number e) cs = Some e"
    proof
      assume "e \<in> set (accumulate_from (insert (number a) seen) cs m)"
      then show ?thesis using lv by (rule Cons.IH)
    next
      assume "e \<in> set (accumulate_from seen cs m)"
      then show ?thesis using lv by (rule Cons.IH)
    qed
    with False show ?thesis by simp
  qed
qed

section \<open>The end-to-end example\<close>

text \<open>
  Claim C1. Five paragraphs, in document order, with the texts "1 Introduction",
  "1.1 Background", "1.1.1 Sensor Placement", "2 Methods" and "2.1 Data Collection":
  with \<open>max_level = 2\<close> the outline is exactly the four entries "1 Introduction",
  "1.1 Background", "2 Methods", "2.1 Data Collection" in that order, and the third
  paragraph, of level 3, is left out.
\<close>

theorem example_outline_depth_two:
  "outline_of (Elem ''[document]''
       [Elem ''p'' [Text (ascii ''1 Introduction'')],
        Elem ''p'' [Text (ascii ''1.1 Background'')],
        Elem ''p'' [Text (ascii ''1.1.1 Sensor Placement'')],
        Elem ''p'' [Text (ascii ''2 Methods'')],
        Elem ''p'' [Text (ascii ''2.1 Data Collection'')]]) 2 =
   [\<lparr>number = ascii ''1'', title = ascii ''Introduction'', level = 1,
      full_text = ascii ''1 Introduction''\<rparr>,
    \<lparr>number = ascii ''1.1'', title = ascii ''Background'', level = 2,
      full_text = ascii ''1.1 Background''\<rparr>,
    \<lparr>number = ascii ''2'', title = ascii ''Methods'', level = 1,
      full_text = ascii ''2 Methods''\<rparr>,
    \<lparr>number = ascii ''2.1'', title = ascii ''Data Collection'', level = 2,
      full_text = ascii ''2.1 Data Collection''\<rparr>]"
  by (simp add: rx_eval soup_eval)

lemma candidates_same_number_level:
  assumes "c \<in> set (candidates texts)" "d \<in> set (candidates texts)" "number d = number c"
  shows "level d = level c"
  using candidates_level[OF assms(1)] candidates_level[OF assms(2)] assms(3) by simp

lemma candidate_level_pos: "c \<in> set (candidates texts) \<Longrightarrow> 1 \<le> level c"
  using candidates_level[of c texts] by simp

section \<open>The accumulated outline\<close>

text \<open>
  Claim C3. For every \<open>max_level\<close> (the command line allows 1, 2 and 3) and every
  sequence of block texts: a candidate deeper than \<open>max_level\<close> is not in the outline;
  every entry of the outline has a level from 1 to \<open>max_level\<close>; no two entries have
  the same numeral path; and the outline is a subsequence of the candidates, so the
  entries stand in document order.
\<close>

theorem outline_depth_unique_order:
  "(\<forall>c \<in> set (candidates texts). level c > max_level \<longrightarrow> c \<notin> set (outline_loop max_level texts))
   \<and> (\<forall>e \<in> set (outline_loop max_level texts). 1 \<le> level e \<and> level e \<le> max_level)
   \<and> distinct (map number (outline_loop max_level texts))
   \<and> subseq (outline_loop max_level texts) (candidates texts)"
proof -
  let ?out = "outline_loop max_level texts"
  have eq: "?out = accumulate_from {} (candidates texts) max_level"
    by (simp add: outline_loop_accumulate accumulate_def)
  have bnd: "\<And>e. e \<in> set ?out \<Longrightarrow> level e \<le> max_level \<and> e \<in> set (candidates texts)"
    unfolding eq using accumulate_from_bounds by blast
  have a: "\<forall>c \<in> set (candidates texts). level c > max_level \<longrightarrow> c \<notin> set ?out"
    using bnd by fastforce
  have b: "\<forall>e \<in> set ?out. 1 \<le> level e \<and> level e \<le> max_level"
    using bnd candidate_level_pos by blast
  have c: "distinct (map number ?out)"
    unfolding eq by (rule accumulate_from_distinct)
  have d: "subseq ?out (candidates texts)"
    unfolding eq by (rule accumulate_from_subseq)
  from a b c d show ?thesis by blast
qed

lemmas loop_eval = outline_loop_def outline_step_def candidates_def heading_candidate_def
  accumulate_def map_filter_simps

theorem outline_depth_unique_order_witness:
  "map number (candidates [ascii ''1 Introduction'', ascii ''1.1 Background'',
        ascii ''1.1.1 Sensor Placement'', ascii ''1.1 Background'']) =
     [ascii ''1'', ascii ''1.1'', ascii ''1.1.1'', ascii ''1.1'']
   \<and> map number (outline_loop 2 [ascii ''1 Introduction'', ascii ''1.1 Background'',
        ascii ''1.1.1 Sensor Placement'', ascii ''1.1 Background'']) =
     [ascii ''1'', ascii ''1.1'']
   \<and> map level (outline_loop 2 [ascii ''1 Introduction'', ascii ''1.1 Background'',
        ascii ''1.1.1 Sensor Placement'', ascii ''1.1 Background'']) = [1, 2]
   \<and> distinct (map number (outline_loop 2 [ascii ''1 Introduction'', ascii ''1.1 Background'',
        ascii ''1.1.1 Sensor Placement'', ascii ''1.1 Background'']))
   \<and> subseq (outline_loop 2 [ascii ''1 Introduction'', ascii ''1.1 Background'',
        ascii ''1.1.1 Sensor Placement'', ascii ''1.1 Background''])
       (candidates [ascii ''1 Introduction'', ascii ''1.1 Background'',
        ascii ''1.1.1 Sensor Placement'', ascii ''1.1 Background''])"
proof -
  let ?T = "[ascii ''1 Introduction'', ascii ''1.1 Background'',
        ascii ''1.1.1 Sensor Placement'', ascii ''1.1 Background'']"
  have c: "candidates ?T =
    [\<lparr>number = ascii ''1'', title = ascii ''Introduction'', level = 1,
       full_text = ascii ''1 Introduction''\<rparr>,
     \<lparr>number = ascii ''1.1'', title = ascii ''Background'', level = 2,
       full_text = ascii ''1.1 Background''\<rparr>,
     \<lparr>number = ascii ''1.1.1'', title = ascii ''Sensor Placement'', level = 3,
       full_text = ascii ''1.1.1 Sensor Placement''\<rparr>,
     \<lparr>number = ascii ''1.1'', title = ascii ''Background'', level = 2,
       full_text = ascii ''1.1 Background''\<rparr>]"
    by (simp add: loop_eval rx_eval)
  have o: "outline_loop 2 ?T =
    [\<lparr>number = ascii ''1'', title = ascii ''Introduction'', level = 1,
       full_text = ascii ''1 Introduction''\<rparr>,
     \<lparr>number = ascii ''1.1'', title = ascii ''Background'', level = 2,
       full_text = ascii ''1.1 Background''\<rparr>]"
    unfolding outline_loop_accumulate accumulate_def c by (simp add: ascii_def)
  from outline_depth_unique_order[of ?T 2] show ?thesis
    unfolding c o by (simp add: ascii_def)
qed

text \<open>
  Claim C4. The loop of the source gives the outline that the accumulator of the
  specification gives on the same candidates: a candidate deeper than \<open>max_level\<close> is
  discarded, else one whose numeral path is in the seen set is discarded, else the path
  joins the seen set and the candidate is appended. Every entry of the outline is the
  first candidate, in document order, that carries its numeral path: of two blocks
  numbered "2.1" only the first is in the result.
\<close>

theorem loop_refines_accumulate_first_wins:
  "outline_loop max_level texts = accumulate (candidates texts) max_level
   \<and> (\<forall>e \<in> set (outline_loop max_level texts).
         find (\<lambda>c. number c = number e) (candidates texts) = Some e)"
proof -
  have eq: "outline_loop max_level texts = accumulate_from {} (candidates texts) max_level"
    by (simp add: outline_loop_accumulate accumulate_def)
  have "find (\<lambda>c. number c = number e) (candidates texts) = Some e"
    if e: "e \<in> set (outline_loop max_level texts)" for e
  proof -
    from e have mem: "e \<in> set (accumulate_from {} (candidates texts) max_level)"
      by (simp add: eq)
    then have ec: "e \<in> set (candidates texts)"
      using accumulate_from_bounds by blast
    from mem show ?thesis
    proof (rule accumulate_from_first)
      fix d assume "d \<in> set (candidates texts)" "number d = number e"
      with ec show "level d = level e" by (rule candidates_same_number_level)
    qed
  qed
  with outline_loop_accumulate show ?thesis by blast
qed

theorem loop_refines_accumulate_first_wins_witness:
  "outline_loop 2 [ascii ''2.1 Data Collection'', ascii ''2.2 Storage'', ascii ''2.1 Page Header''] =
     accumulate (candidates [ascii ''2.1 Data Collection'', ascii ''2.2 Storage'',
        ascii ''2.1 Page Header'']) 2
   \<and> map full_text (outline_loop 2 [ascii ''2.1 Data Collection'', ascii ''2.2 Storage'',
        ascii ''2.1 Page Header'']) = [ascii ''2.1 Data Collection'', ascii ''2.2 Storage'']
   \<and> find (\<lambda>c. number c = ascii ''2.1'') (candidates [ascii ''2.1 Data Collection'',
        ascii ''2.2 Storage'', ascii ''2.1 Page Header'']) =
       Some \<lparr>number = ascii ''2.1'', title = ascii ''Data Collection'', level = 2,
              full_text = ascii ''2.1 Data Collection''\<rparr>"
proof -
  let ?T = "[ascii ''2.1 Data Collection'', ascii ''2.2 Storage'', ascii ''2.1 Page Header'']"
  have c: "candidates ?T =
    [\<lparr>number = ascii ''2.1'', title = ascii ''Data Collection'', level = 2,
       full_text = ascii ''2.1 Data Collection''\<rparr>,
     \<lparr>number = ascii ''2.2'', title = ascii ''Storage'', level = 2,
       full_text = ascii ''2.2 Storage''\<rparr>,
     \<lparr>number = ascii ''2.1'', title = ascii ''Page Header'', level = 2,
       full_text = ascii ''2.1 Page Header''\<rparr>]"
    by (simp add: loop_eval rx_eval)
  have o: "outline_loop 2 ?T =
    [\<lparr>number = ascii ''2.1'', title = ascii ''Data Collection'', level = 2,
       full_text = ascii ''2.1 Data Collection''\<rparr>,
     \<lparr>number = ascii ''2.2'', title = ascii ''Storage'', level = 2,
       full_text = ascii ''2.2 Storage''\<rparr>]"
    unfolding outline_loop_accumulate accumulate_def c by (simp add: ascii_def)
  have r: "outline_loop 2 ?T = accumulate (candidates ?T) 2"
    using loop_refines_accumulate_first_wins[of 2 ?T] by blast
  have m: "map full_text (outline_loop 2 ?T) = [ascii ''2.1 Data Collection'', ascii ''2.2 Storage'']"
    unfolding o by simp
  have f: "find (\<lambda>c. number c = ascii ''2.1'') (candidates ?T) =
       Some \<lparr>number = ascii ''2.1'', title = ascii ''Data Collection'', level = 2,
              full_text = ascii ''2.1 Data Collection''\<rparr>"
    unfolding c by simp
  from r m f show ?thesis by (intro conjI)
qed

text \<open>
  Claim C10, as amended. Numeral paths are compared as strings. A candidate within the
  depth bound is represented in the outline under exactly its own path, so two
  candidates within the depth bound whose paths differ as written are both retained,
  whatever numbers the paths denote: "1", "01" and "1.0" give three entries at
  \<open>max_level = 2\<close>. A candidate deeper than \<open>max_level\<close> is not retained: at
  \<open>max_level = 1\<close> the candidate "1.0" is dropped.
\<close>

theorem distinct_paths_both_retained:
  assumes "c1 \<in> set (candidates texts)" "c2 \<in> set (candidates texts)"
    and "number c1 \<noteq> number c2"
    and "level c1 \<le> max_level" "level c2 \<le> max_level"
  shows "\<exists>e1 e2. e1 \<in> set (outline_loop max_level texts) \<and> e2 \<in> set (outline_loop max_level texts)
           \<and> e1 \<noteq> e2 \<and> number e1 = number c1 \<and> number e2 = number c2"
proof -
  have eq: "outline_loop max_level texts = accumulate_from {} (candidates texts) max_level"
    by (simp add: outline_loop_accumulate accumulate_def)
  have keep: "number c \<in> number ` set (outline_loop max_level texts)"
    if c: "c \<in> set (candidates texts)" and l: "level c \<le> max_level" for c
    unfolding eq
  proof (rule accumulate_from_keeps[OF c l])
    show "number c \<notin> {}" by simp
  next
    fix d assume "d \<in> set (candidates texts)" "number d = number c"
    with c show "level d = level c" by (rule candidates_same_number_level)
  qed
  from keep[OF assms(1) assms(4)] obtain e1
    where e1: "e1 \<in> set (outline_loop max_level texts)" "number e1 = number c1" by auto
  from keep[OF assms(2) assms(5)] obtain e2
    where e2: "e2 \<in> set (outline_loop max_level texts)" "number e2 = number c2" by auto
  from e1 e2 assms(3) have "e1 \<noteq> e2" by auto
  with e1 e2 show ?thesis by blast
qed

theorem distinct_paths_both_retained_witness:
  "(\<exists>e1 e2. e1 \<in> set (outline_loop 2 [ascii ''1 Overview'', ascii ''01 Overview'', ascii ''1.0 Notes''])
        \<and> e2 \<in> set (outline_loop 2 [ascii ''1 Overview'', ascii ''01 Overview'', ascii ''1.0 Notes''])
        \<and> e1 \<noteq> e2 \<and> number e1 = ascii ''1'' \<and> number e2 = ascii ''01'')
   \<and> (\<exists>e1 e2. e1 \<in> set (outline_loop 2 [ascii ''1 Overview'', ascii ''01 Overview'', ascii ''1.0 Notes''])
        \<and> e2 \<in> set (outline_loop 2 [ascii ''1 Overview'', ascii ''01 Overview'', ascii ''1.0 Notes''])
        \<and> e1 \<noteq> e2 \<and> number e1 = ascii ''1'' \<and> number e2 = ascii ''1.0'')
   \<and> map number (outline_loop 2 [ascii ''1 Overview'', ascii ''01 Overview'', ascii ''1.0 Notes'']) =
       [ascii ''1'', ascii ''01'', ascii ''1.0'']"
proof -
  let ?T = "[ascii ''1 Overview'', ascii ''01 Overview'', ascii ''1.0 Notes'']"
  let ?a = "\<lparr>number = ascii ''1'', title = ascii ''Overview'', level = 1,
       full_text = ascii ''1 Overview''\<rparr>"
  let ?b = "\<lparr>number = ascii ''01'', title = ascii ''Overview'', level = 1,
       full_text = ascii ''01 Overview''\<rparr>"
  let ?c = "\<lparr>number = ascii ''1.0'', title = ascii ''Notes'', level = 2,
       full_text = ascii ''1.0 Notes''\<rparr>"
  have c: "candidates ?T = [?a, ?b, ?c]"
    by (simp add: loop_eval rx_eval)
  have o: "outline_loop 2 ?T = [?a, ?b, ?c]"
    unfolding outline_loop_accumulate accumulate_def c by (simp add: ascii_def)
  have ma: "?a \<in> set (candidates ?T)" and mb: "?b \<in> set (candidates ?T)"
    and mc: "?c \<in> set (candidates ?T)"
    unfolding c by simp_all
  have x: "\<exists>e1 e2. e1 \<in> set (outline_loop 2 ?T) \<and> e2 \<in> set (outline_loop 2 ?T)
        \<and> e1 \<noteq> e2 \<and> number e1 = ascii ''1'' \<and> number e2 = ascii ''01''"
    using distinct_paths_both_retained[OF ma mb, of 2] by (simp add: ascii_def)
  have y: "\<exists>e1 e2. e1 \<in> set (outline_loop 2 ?T) \<and> e2 \<in> set (outline_loop 2 ?T)
        \<and> e1 \<noteq> e2 \<and> number e1 = ascii ''1'' \<and> number e2 = ascii ''1.0''"
    using distinct_paths_both_retained[OF ma mc, of 2] by (simp add: ascii_def)
  have z: "map number (outline_loop 2 ?T) = [ascii ''1'', ascii ''01'', ascii ''1.0'']"
    unfolding o by simp
  from x y z show ?thesis by (intro conjI)
qed

theorem deeper_path_not_retained_counterexample:
  "map number (candidates [ascii ''1 Overview'', ascii ''1.0 Notes'']) = [ascii ''1'', ascii ''1.0'']
   \<and> map number (outline_loop 1 [ascii ''1 Overview'', ascii ''1.0 Notes'']) = [ascii ''1'']"
proof -
  let ?T = "[ascii ''1 Overview'', ascii ''1.0 Notes'']"
  have c: "candidates ?T =
     [\<lparr>number = ascii ''1'', title = ascii ''Overview'', level = 1,
        full_text = ascii ''1 Overview''\<rparr>,
      \<lparr>number = ascii ''1.0'', title = ascii ''Notes'', level = 2,
        full_text = ascii ''1.0 Notes''\<rparr>]"
    by (simp add: loop_eval rx_eval)
  have o: "map number (outline_loop 1 ?T) = [ascii ''1'']"
    unfolding outline_loop_accumulate accumulate_def c by (simp add: ascii_def)
  have n: "map number (candidates ?T) = [ascii ''1'', ascii ''1.0'']"
    unfolding c by simp
  from n o show ?thesis by (intro conjI)
qed

section \<open>Handles and removal\<close>

lemma lookup_decompose_prefix: "prefix q p \<Longrightarrow> lookup (decompose t q) p = None"
proof (induction q arbitrary: t p)
  case Nil
  show ?case by (cases p) simp_all
next
  case (Cons i q)
  then obtain p' where p: "p = i # p'" and pre: "prefix q p'"
    by (cases p) auto
  show ?case
    using Cons.IH[OF pre] by (cases t) (simp_all add: p)
qed

lemma lookup_decompose_disjoint:
  "\<not> prefix q p \<Longrightarrow> \<not> prefix p q \<Longrightarrow> lookup (decompose t q) p = lookup t p"
proof (induction q arbitrary: t p)
  case Nil
  then show ?case by simp
next
  case (Cons i q)
  then obtain j p' where p: "p = j # p'"
    by (cases p) auto
  show ?case
  proof (cases "i = j")
    case True
    with Cons.prems p have "\<not> prefix q p'" "\<not> prefix p' q" by auto
    from Cons.IH[OF this] True show ?thesis by (cases t) (simp_all add: p)
  next
    case False
    then show ?thesis by (cases t) (simp_all add: p)
  qed
qed

lemma lookup_None_decompose: "lookup t p = None \<Longrightarrow> lookup (decompose t q) p = None"
proof (induction p arbitrary: t q)
  case Nil
  then have "t = Detached" by (cases t) simp_all
  then show ?case by (cases q) simp_all
next
  case (Cons i p)
  show ?case
  proof (cases q)
    case Nil
    then show ?thesis by simp
  next
    case (Cons j q')
    show ?thesis
    proof (cases t)
      case (Elem tg kids)
      show ?thesis
      proof (cases "i = j \<and> i < length kids")
        case True
        with Cons.prems Elem have "lookup (kids ! i) p = None" by simp
        from Cons.IH[OF this] True Elem show ?thesis by (simp add: Cons)
      next
        case False
        with Cons.prems Elem show ?thesis by (auto simp: Cons)
      qed
    qed (simp_all add: Cons)
  qed
qed

lemma decompose_gone: "lookup t p = None \<Longrightarrow> decompose t p = t"
proof (induction p arbitrary: t)
  case Nil
  then show ?case by (cases t) simp_all
next
  case (Cons i p)
  show ?case
  proof (cases t)
    case (Elem tg kids)
    show ?thesis
    proof (cases "i < length kids")
      case True
      with Cons.prems Elem have "lookup (kids ! i) p = None" by simp
      from Cons.IH[OF this] True Elem show ?thesis by simp
    next
      case False
      with Elem show ?thesis by simp
    qed
  qed simp_all
qed

lemma find_kids_shape:
  "q \<in> set (find_kids names i ks) \<Longrightarrow> \<exists>j r. q = j # r \<and> i \<le> j"
proof (induction ks arbitrary: i)
  case Nil
  then show ?case by simp
next
  case (Cons k ks)
  from Cons.prems have "q = [i] \<or> q \<in> (#) i ` set (find_all names k) \<or> q \<in> set (find_kids names (Suc i) ks)"
    by (auto split: if_splits)
  then show ?case
  proof (elim disjE)
    assume "q \<in> set (find_kids names (Suc i) ks)"
    from Cons.IH[OF this] show ?thesis by auto
  qed auto
qed

lemma find_all_nonempty: "q \<in> set (find_all names t) \<Longrightarrow> q \<noteq> []"
  by (cases t) (auto dest: find_kids_shape)

lemma find_all_preorder:
  "sorted_wrt (\<lambda>a b. \<not> prefix b a) (find_all names t)"
  "sorted_wrt (\<lambda>a b. \<not> prefix b a) (find_kids names i ks)"
proof (induction names t and names i ks rule: find_all_find_kids.induct)
  case (6 names i k ks)
  have b: "sorted_wrt (\<lambda>a b. \<not> prefix b a) (map ((#) i) (find_all names k))"
    using "6.IH"(1) by (simp add: sorted_wrt_map)
  have ab: "\<forall>y \<in> set (map ((#) i) (find_all names k)). \<not> prefix y [i]"
    by (auto dest: find_all_nonempty)
  have ac: "\<forall>y \<in> set (find_kids names (Suc i) ks). \<not> prefix y [i]"
    by (auto dest!: find_kids_shape)
  have bc: "\<forall>x \<in> set (map ((#) i) (find_all names k)).
              \<forall>y \<in> set (find_kids names (Suc i) ks). \<not> prefix y x"
    by (auto dest!: find_kids_shape)
  show ?case
    using b ab ac bc "6.IH"(2) by (auto simp: sorted_wrt_append)
qed simp_all

lemma find_all_distinct: "distinct (find_all names t)"
proof -
  have "sorted_wrt (\<lambda>a b. a \<noteq> b) (find_all names t)"
    by (rule sorted_wrt_mono_rel[OF _ find_all_preorder(1)]) auto
  then show ?thesis by (simp add: distinct_conv_nth sorted_wrt_iff_nth_less nat_neq_iff) metis
qed

lemma find_all_earlier:
  assumes "find_all names t = pre @ p # post" "q \<in> set pre"
  shows "\<not> prefix p q"
  using find_all_preorder(1)[of names t] assms by (simp add: sorted_wrt_append)

lemma find_all_live:
  "p \<in> set (find_all names t) \<Longrightarrow> \<exists>n. lookup t p = Some n \<and> is_tag names n"
  "p \<in> set (find_kids names i ks) \<Longrightarrow>
     \<exists>j r n. p = j # r \<and> i \<le> j \<and> j - i < length ks \<and> lookup (ks ! (j - i)) r = Some n \<and> is_tag names n"
proof (induction names t and names i ks arbitrary: p and p rule: find_all_find_kids.induct)
  case (1 names tg kids)
  from "1.IH"[of p] "1.prems" show ?case by auto
next
  case (6 names i k ks)
  from "6.prems" have "(p = [i] \<and> is_tag names k) \<or> p \<in> (#) i ` set (find_all names k)
      \<or> p \<in> set (find_kids names (Suc i) ks)"
    by (auto split: if_splits)
  then show ?case
  proof (elim disjE)
    assume a: "p = [i] \<and> is_tag names k"
    then have "k \<noteq> Detached" by (auto simp: is_tag_def)
    with a show ?thesis by (cases k) auto
  next
    assume "p \<in> (#) i ` set (find_all names k)"
    then obtain r where r: "p = i # r" "r \<in> set (find_all names k)" by auto
    from "6.IH"(1)[OF r(2)] r(1) show ?thesis by auto
  next
    assume "p \<in> set (find_kids names (Suc i) ks)"
    from "6.IH"(2)[OF this] obtain j r n where
      h: "p = j # r" "Suc i \<le> j" "j - Suc i < length ks" "lookup (ks ! (j - Suc i)) r = Some n" "is_tag names n"
      by blast
    then have "(k # ks) ! (j - i) = ks ! (j - Suc i)"
      by (metis Suc_diff_Suc Suc_le_lessD nth_Cons_Suc)
    with h show ?thesis by auto
  qed
qed simp_all

end
